theory Spec2Isabelle
  imports Main "HOL-Library.Sublist"
begin

section \<open>Strings, errors\<close>

text \<open>
  A Python \<open>str\<close> is modelled as a \<open>string\<close>: a list of characters, each standing for one
  code point of the Latin-1 range (a code point above 255 is no digit for the pattern
  \<open>[^0-9]\<close> either, and \<open>limpar_numero\<close> deletes it like any other). Non-ASCII letters
  of the messages are written by their code point (\<open>CHR 0xE3\<close> is a-tilde). The
  exceptions the code could raise are values of the type \<open>error\<close>; a function that may
  raise returns \<open>error + 'a\<close>.
\<close>

datatype error = ValueError | IndexError | KeyError

subsection \<open>Regular expressions of the module \<open>re\<close>\<close>

text \<open>
  The fragment of Python's regular expressions that the brand table uses: literals,
  character classes of ranges, \<open>\d\<close>, the anchors, concatenation, alternation and the
  counted repetition \<open>r{m,n}\<close> (\<open>r?\<close> is \<open>r{0,1}\<close>). Groups, capturing or not, only
  bracket and have no constructor.
\<close>

datatype regex =
    Eps
  | Lit char
  | Cls "(char \<times> char) list"
  | Dig
  | Bol
  | Eol
  | Seq regex regex
  | Alt regex regex
  | Rep regex nat nat

definition in_range :: "char \<Rightarrow> char \<times> char \<Rightarrow> bool" where
  "in_range c r = ((of_char (fst r) :: nat) \<le> of_char c \<and> (of_char c :: nat) \<le> of_char (snd r))"

definition in_class :: "(char \<times> char) list \<Rightarrow> char \<Rightarrow> bool" where
  "in_class rs c = list_ex (in_range c) rs"

text \<open>\<open>\d\<close>: among the code points below 256 the decimal digits are \<open>0\<close> to \<open>9\<close>.\<close>

definition is_decimal :: "char \<Rightarrow> bool" where
  "is_decimal c = in_range c (CHR ''0'', CHR ''9'')"

text \<open>
  A matcher state is the number of characters consumed and the rest of the subject.
  \<open>match_at r st\<close> lists, in the order a backtracking matcher tries them, the states
  in which a match of \<open>r\<close> begun in \<open>st\<close> can end.
\<close>

type_synonym mstate = "nat \<times> string"

definition one_char :: "(char \<Rightarrow> bool) \<Rightarrow> mstate \<Rightarrow> mstate list" where
  "one_char P st = (case snd st of [] \<Rightarrow> [] | c # cs \<Rightarrow> if P c then [(Suc (fst st), cs)] else [])"

text \<open>Greedy \<open>r{m,n}\<close>: one more round of \<open>r\<close> is tried before stopping.\<close>

fun rep_m :: "(mstate \<Rightarrow> mstate list) \<Rightarrow> nat \<Rightarrow> nat \<Rightarrow> mstate \<Rightarrow> mstate list" where
  "rep_m f m 0 st = (if m = 0 then [st] else [])"
| "rep_m f m (Suc n) st =
     concat (map (rep_m f (m - 1) n) (f st)) @ (if m = 0 then [st] else [])"

primrec match_at :: "regex \<Rightarrow> mstate \<Rightarrow> mstate list" where
  "match_at Eps st = [st]"
| "match_at (Lit c) st = one_char (\<lambda>x. x = c) st"
| "match_at (Cls rs) st = one_char (in_class rs) st"
| "match_at Dig st = one_char is_decimal st"
| "match_at Bol st = (if fst st = 0 then [st] else [])"
| "match_at Eol st = (if snd st = [] \<or> snd st = [CHR 0x0A] then [st] else [])"
| "match_at (Seq a b) st = concat (map (match_at b) (match_at a st))"
| "match_at (Alt a b) st = match_at a st @ match_at b st"
| "match_at (Rep r m n) st = rep_m (match_at r) m n st"

text \<open>\<open>re.match(padrao, numero)\<close> as a truth value: a match beginning at position 0.\<close>

definition re_match :: "regex \<Rightarrow> string \<Rightarrow> bool" where
  "re_match padrao numero = (match_at padrao (0, numero) \<noteq> [])"

text \<open>Writing patterns: a sequence, a choice, a literal word, \<open>[a-b]\<close>, \<open>[abc]\<close>, \<open>r{n}\<close>, \<open>r?\<close>.\<close>

definition cat :: "regex list \<Rightarrow> regex" where
  "cat rs = foldr Seq rs Eps"

fun alts :: "regex list \<Rightarrow> regex" where
  "alts [] = Cls []"
| "alts [r] = r"
| "alts (r # rs) = Alt r (alts rs)"

definition str :: "string \<Rightarrow> regex" where
  "str s = cat (map Lit s)"

definition rng :: "char \<Rightarrow> char \<Rightarrow> regex" where
  "rng a b = Cls [(a, b)]"

definition any_of :: "string \<Rightarrow> regex" where
  "any_of s = Cls (map (\<lambda>c. (c, c)) s)"

definition exactly :: "regex \<Rightarrow> nat \<Rightarrow> regex" where
  "exactly r n = Rep r n n"

definition opt :: "regex \<Rightarrow> regex" where
  "opt r = Rep r 0 1"

definition d09 :: regex where
  "d09 = rng CHR ''0'' CHR ''9''"

section \<open>The brand table\<close>

text \<open>\<open>'^4[0-9]{12}(?:[0-9]{3})?$'\<close>\<close>

definition padrao_visa :: regex where
  "padrao_visa = cat [Bol, Lit CHR ''4'', exactly d09 12, opt (exactly d09 3), Eol]"

text \<open>\<open>'^5[1-5][0-9]{14}$|^2[2-7][0-9]{14}$'\<close>\<close>

definition padrao_mastercard :: regex where
  "padrao_mastercard = alts
     [cat [Bol, Lit CHR ''5'', rng CHR ''1'' CHR ''5'', exactly d09 14, Eol],
      cat [Bol, Lit CHR ''2'', rng CHR ''2'' CHR ''7'', exactly d09 14, Eol]]"

text \<open>\<open>'^3[47][0-9]{13}$'\<close>\<close>

definition padrao_amex :: regex where
  "padrao_amex = cat [Bol, Lit CHR ''3'', any_of ''47'', exactly d09 13, Eol]"

text \<open>
  \<open>'^(4011(78|79)|43(1274|8935)|45(1416|7393|763[12])|50(4175|6699|67[0-6][0-9]|677[0-8]|9[0-8][0-9]{2}|99[0-8][0-9]|999[0-9])|627780|63(6297|6368|6369)|65(0(0(3[1-3]|[5-9])|4[0-9]|5[0-1])|4(0[5-9]|[1-3][0-9]|8[5-9]|9[0-9])|5([0-2][0-9]|3[0-8]|4[1-9]|[5-8][0-9]|9[0-8])|7(0[0-9]|1[0-8]|2[0-7])|9(0[1-9]|[1-6][0-9]|7[0-8]))|16(5[2-9]|[6-7][0-9])|50(0[0-9]|1[0-9]|2[1-9]|[3-4][0-9]|5[0-8]))$'\<close>

  The closing anchor follows the group of prefixes directly: no run of digits stands
  between them.
\<close>

definition elo_50a :: regex where
  "elo_50a = alts
     [str ''4175'', str ''6699'',
      cat [str ''67'', rng CHR ''0'' CHR ''6'', d09],
      cat [str ''677'', rng CHR ''0'' CHR ''8''],
      cat [Lit CHR ''9'', rng CHR ''0'' CHR ''8'', exactly d09 2],
      cat [str ''99'', rng CHR ''0'' CHR ''8'', d09],
      cat [str ''999'', d09]]"

definition elo_65 :: regex where
  "elo_65 = alts
     [cat [Lit CHR ''0'', alts
        [cat [Lit CHR ''0'', alts [cat [Lit CHR ''3'', rng CHR ''1'' CHR ''3''], rng CHR ''5'' CHR ''9'']],
         cat [Lit CHR ''4'', d09],
         cat [Lit CHR ''5'', rng CHR ''0'' CHR ''1'']]],
      cat [Lit CHR ''4'', alts
        [cat [Lit CHR ''0'', rng CHR ''5'' CHR ''9''],
         cat [rng CHR ''1'' CHR ''3'', d09],
         cat [Lit CHR ''8'', rng CHR ''5'' CHR ''9''],
         cat [Lit CHR ''9'', d09]]],
      cat [Lit CHR ''5'', alts
        [cat [rng CHR ''0'' CHR ''2'', d09],
         cat [Lit CHR ''3'', rng CHR ''0'' CHR ''8''],
         cat [Lit CHR ''4'', rng CHR ''1'' CHR ''9''],
         cat [rng CHR ''5'' CHR ''8'', d09],
         cat [Lit CHR ''9'', rng CHR ''0'' CHR ''8'']]],
      cat [Lit CHR ''7'', alts
        [cat [Lit CHR ''0'', d09],
         cat [Lit CHR ''1'', rng CHR ''0'' CHR ''8''],
         cat [Lit CHR ''2'', rng CHR ''0'' CHR ''7'']]],
      cat [Lit CHR ''9'', alts
        [cat [Lit CHR ''0'', rng CHR ''1'' CHR ''9''],
         cat [rng CHR ''1'' CHR ''6'', d09],
         cat [Lit CHR ''7'', rng CHR ''0'' CHR ''8'']]]]"

definition elo_50b :: regex where
  "elo_50b = alts
     [cat [Lit CHR ''0'', d09],
      cat [Lit CHR ''1'', d09],
      cat [Lit CHR ''2'', rng CHR ''1'' CHR ''9''],
      cat [rng CHR ''3'' CHR ''4'', d09],
      cat [Lit CHR ''5'', rng CHR ''0'' CHR ''8'']]"

definition padrao_elo :: regex where
  "padrao_elo = cat [Bol, alts
     [cat [str ''4011'', alts [str ''78'', str ''79'']],
      cat [str ''43'', alts [str ''1274'', str ''8935'']],
      cat [str ''45'', alts [str ''1416'', str ''7393'', cat [str ''763'', any_of ''12'']]],
      cat [str ''50'', elo_50a],
      str ''627780'',
      cat [str ''63'', alts [str ''6297'', str ''6368'', str ''6369'']],
      cat [str ''65'', elo_65],
      cat [str ''16'', alts [cat [Lit CHR ''5'', rng CHR ''2'' CHR ''9''], cat [rng CHR ''6'' CHR ''7'', d09]]],
      cat [str ''50'', elo_50b]], Eol]"

text \<open>\<open>'^(606282\d{10}(\d{3})?|3841\d{15})$'\<close>\<close>

definition padrao_hipercard :: regex where
  "padrao_hipercard = cat [Bol, alts
     [cat [str ''606282'', exactly Dig 10, opt (exactly Dig 3)],
      cat [str ''3841'', exactly Dig 15]], Eol]"

text \<open>\<open>'^3(?:0[0-5]|[68][0-9])[0-9]{11}$'\<close>\<close>

definition padrao_diners :: regex where
  "padrao_diners = cat [Bol, Lit CHR ''3'',
     alts [cat [Lit CHR ''0'', rng CHR ''0'' CHR ''5''], cat [any_of ''68'', d09]],
     exactly d09 11, Eol]"

text \<open>\<open>'^6(?:011|5[0-9]{2})[0-9]{12}$'\<close>\<close>

definition padrao_discover :: regex where
  "padrao_discover = cat [Bol, Lit CHR ''6'',
     alts [str ''011'', cat [Lit CHR ''5'', exactly d09 2]],
     exactly d09 12, Eol]"

text \<open>\<open>'^(?:2131|1800|35\d{3})\d{11}$'\<close>\<close>

definition padrao_jcb :: regex where
  "padrao_jcb = cat [Bol,
     alts [str ''2131'', str ''1800'', cat [str ''35'', exactly Dig 3]],
     exactly Dig 11, Eol]"

text \<open>\<open>'^5078\d{2}\d{2}\d{11}$'\<close>\<close>

definition padrao_aura :: regex where
  "padrao_aura = cat [Bol, str ''5078'', exactly Dig 2, exactly Dig 2, exactly Dig 11, Eol]"

text \<open>\<open>'^(?:5[0678]\d\d|6304|6390|67\d\d)\d{8,15}$'\<close>\<close>

definition padrao_maestro :: regex where
  "padrao_maestro = cat [Bol,
     alts [cat [Lit CHR ''5'', any_of ''0678'', Dig, Dig], str ''6304'', str ''6390'',
           cat [str ''67'', Dig, Dig]],
     Rep Dig 8 15, Eol]"

text \<open>The two dictionaries of \<open>__init__\<close>, in insertion order.\<close>

definition padroes_bandeiras :: "(string \<times> regex) list" where
  "padroes_bandeiras =
     [(''visa'', padrao_visa),
      (''mastercard'', padrao_mastercard),
      (''amex'', padrao_amex),
      (''elo'', padrao_elo),
      (''hipercard'', padrao_hipercard),
      (''diners'', padrao_diners),
      (''discover'', padrao_discover),
      (''jcb'', padrao_jcb),
      (''aura'', padrao_aura),
      (''maestro'', padrao_maestro)]"

definition nomes_bandeiras :: "(string \<times> string) list" where
  "nomes_bandeiras =
     [(''visa'', ''Visa''),
      (''mastercard'', ''Mastercard''),
      (''amex'', ''American Express''),
      (''elo'', ''Elo''),
      (''hipercard'', ''Hipercard''),
      (''diners'', ''Diners Club''),
      (''discover'', ''Discover''),
      (''jcb'', ''JCB''),
      (''aura'', ''Aura''),
      (''maestro'', ''Maestro'')]"

section \<open>The validator\<close>

text \<open>
  \<open>re.sub(r'[^0-9]', '', str(numero))\<close>: a character is deleted when it matches the
  negated class, that is when it is not in \<open>0-9\<close>; the others are kept in their order.
\<close>

definition limpar_numero :: "string \<Rightarrow> string" where
  "limpar_numero numero = filter (\<lambda>c. \<not> \<not> in_class [(CHR ''0'', CHR ''9'')] c) numero"

text \<open>
  The loop of \<open>identificar_bandeira\<close> over \<open>padroes_bandeiras.items()\<close>; the subscript
  \<open>nomes_bandeiras[bandeira]\<close> raises \<open>KeyError\<close> on a missing key.
\<close>

fun primeira_bandeira :: "(string \<times> regex) list \<Rightarrow> string \<Rightarrow> error + string option" where
  "primeira_bandeira [] numero = Inr None"
| "primeira_bandeira ((bandeira, padrao) # resto) numero =
     (if re_match padrao numero
      then (case map_of nomes_bandeiras bandeira of
              None \<Rightarrow> Inl KeyError
            | Some nome \<Rightarrow> Inr (Some nome))
      else primeira_bandeira resto numero)"

definition identificar_bandeira :: "string \<Rightarrow> error + string option" where
  "identificar_bandeira numero = primeira_bandeira padroes_bandeiras (limpar_numero numero)"

text \<open>
  \<open>str.isdigit()\<close>: the string is not empty and every character is a digit. Among the
  code points below 256, Python counts the superscripts two, three and one
  (\<open>0xB2\<close>, \<open>0xB3\<close>, \<open>0xB9\<close>) as digits besides \<open>0\<close> to \<open>9\<close>.
\<close>

definition isdigit_char :: "char \<Rightarrow> bool" where
  "isdigit_char c = (is_decimal c \<or> c = CHR 0xB2 \<or> c = CHR 0xB3 \<or> c = CHR 0xB9)"

definition isdigit :: "string \<Rightarrow> bool" where
  "isdigit s = (s \<noteq> [] \<and> list_all isdigit_char s)"

text \<open>\<open>int(d)\<close> on one character: its value for \<open>0\<close> to \<open>9\<close>, \<open>ValueError\<close> otherwise.\<close>

definition int_of_char :: "char \<Rightarrow> error + int" where
  "int_of_char d = (if is_decimal d then Inr (int (of_char d) - 48) else Inl ValueError)"

text \<open>\<open>[int(d) for d in numero]\<close>\<close>

fun ints_of :: "string \<Rightarrow> error + int list" where
  "ints_of [] = Inr []"
| "ints_of (d # ds) =
     (case int_of_char d of
        Inl e \<Rightarrow> Inl e
      | Inr v \<Rightarrow> (case ints_of ds of Inl e \<Rightarrow> Inl e | Inr vs \<Rightarrow> Inr (v # vs)))"

text \<open>\<open>list.pop()\<close>: the last element and the shortened list; \<open>IndexError\<close> on the empty list.\<close>

definition pop :: "'a list \<Rightarrow> error + ('a \<times> 'a list)" where
  "pop xs = (if xs = [] then Inl IndexError else Inr (last xs, butlast xs))"

text \<open>
  The loop \<open>for i in range(0, len(digitos), 2)\<close> of \<open>validar_luhn\<close>, entered at index
  \<open>i\<close>: the element is doubled in place, and 9 is subtracted when it then exceeds 9.
\<close>

function dobrar :: "nat \<Rightarrow> int list \<Rightarrow> int list" where
  "dobrar i digitos =
     (if i < length digitos
      then (let digitos1 = digitos[i := digitos ! i * 2];
                digitos2 = (if digitos1 ! i > 9 then digitos1[i := digitos1 ! i - 9] else digitos1)
            in dobrar (i + 2) digitos2)
      else digitos)"
  by pat_completeness auto
termination
  by (relation "measure (\<lambda>(i, digitos). length digitos - i)") (auto simp: Let_def)

declare dobrar.simps [simp del]

definition validar_luhn :: "string \<Rightarrow> error + bool" where
  "validar_luhn numero0 =
     (let numero = limpar_numero numero0 in
      if \<not> isdigit numero then Inr False
      else (case ints_of numero of
              Inl e \<Rightarrow> Inl e
            | Inr digitos \<Rightarrow>
                (case pop digitos of
                   Inl e \<Rightarrow> Inl e
                 | Inr (check_digit, digitos1) \<Rightarrow>
                     (let digitos2 = rev digitos1;
                          digitos3 = dobrar 0 digitos2;
                          digitos4 = digitos3 @ [check_digit];
                          soma_total = sum_list digitos4
                      in Inr (soma_total mod 10 = 0)))))"

text \<open>The dictionary that \<open>validar_cartao\<close> returns.\<close>

record resultado =
  numero_original :: string
  numero_limpo :: string
  valido_luhn :: bool
  bandeira :: "string option"
  valido_completo :: bool
  comprimento :: nat
  mensagem :: string

definition msg_caracteres :: string where
  "msg_caracteres =
     ''N'' @ [CHR 0xFA] @ ''mero cont'' @ [CHR 0xE9] @ ''m caracteres inv'' @ [CHR 0xE1] @ ''lidos''"

definition msg_comprimento :: string where
  "msg_comprimento =
     ''Comprimento inv'' @ [CHR 0xE1] @ ''lido (deve ter entre 13 e 19 d'' @ [CHR 0xED] @ ''gitos)''"

definition msg_valido :: "string \<Rightarrow> string" where
  "msg_valido b = ''Cart'' @ [CHR 0xE3] @ ''o v'' @ [CHR 0xE1] @ ''lido - Bandeira: '' @ b"

definition msg_sem_bandeira :: string where
  "msg_sem_bandeira =
     ''N'' @ [CHR 0xFA] @ ''mero v'' @ [CHR 0xE1] @ ''lido pelo algoritmo Luhn, mas bandeira n''
       @ [CHR 0xE3] @ ''o identificada''"

definition msg_luhn_invalido :: "string \<Rightarrow> string" where
  "msg_luhn_invalido b =
     ''Bandeira identificada ('' @ b @ ''), mas n'' @ [CHR 0xFA] @ ''mero inv'' @ [CHR 0xE1]
       @ ''lido pelo algoritmo Luhn''"

definition msg_invalido :: string where
  "msg_invalido = ''N'' @ [CHR 0xFA] @ ''mero inv'' @ [CHR 0xE1] @ ''lido''"

text \<open>The status message of the full path, in the order of the \<open>if\<close>/\<open>elif\<close> chain.\<close>

definition mensagem_status :: "bool \<Rightarrow> string option \<Rightarrow> bool \<Rightarrow> string" where
  "mensagem_status luhn band completo =
     (if completo then msg_valido (case band of None \<Rightarrow> ''None'' | Some b \<Rightarrow> b)
      else if luhn \<and> band = None then msg_sem_bandeira
      else if \<not> luhn \<and> band \<noteq> None then msg_luhn_invalido (case band of None \<Rightarrow> ''None'' | Some b \<Rightarrow> b)
      else msg_invalido)"

definition validar_cartao :: "string \<Rightarrow> error + resultado" where
  "validar_cartao numero =
     (let limpo = limpar_numero numero;
          resultado = \<lparr> numero_original = numero, numero_limpo = limpo, valido_luhn = False,
                        bandeira = None, valido_completo = False, comprimento = length limpo,
                        mensagem = [] \<rparr>
      in if \<not> isdigit limpo then Inr (resultado\<lparr>mensagem := msg_caracteres\<rparr>)
         else if length limpo < 13 \<or> length limpo > 19
         then Inr (resultado\<lparr>mensagem := msg_comprimento\<rparr>)
         else (case validar_luhn limpo of
                 Inl e \<Rightarrow> Inl e
               | Inr luhn \<Rightarrow>
                   (case identificar_bandeira limpo of
                      Inl e \<Rightarrow> Inl e
                    | Inr band \<Rightarrow>
                        (let completo = (luhn \<and> band \<noteq> None)
                         in Inr (resultado\<lparr>valido_luhn := luhn, bandeira := band,
                                   valido_completo := completo,
                                   mensagem := mensagem_status luhn band completo\<rparr>)))))"

text \<open>The slice \<open>s[i:j]\<close> for \<open>0 \<le> i \<le> j\<close>, and \<open>s[i:]\<close> as \<open>drop i s\<close>.\<close>

definition slice :: "nat \<Rightarrow> nat \<Rightarrow> 'a list \<Rightarrow> 'a list" where
  "slice i j s = drop i (take j s)"

text \<open>
  \<open>formatar_numero\<close>: \<open>not bandeira\<close> holds for \<open>None\<close> and for the empty string; a
  branch whose length test fails falls through to the final \<open>return numero\<close>.
\<close>

definition formatar_numero :: "string \<Rightarrow> string option \<Rightarrow> error + string" where
  "formatar_numero numero0 bandeira0 =
     (let numero = limpar_numero numero0
      in case (if bandeira0 = None \<or> bandeira0 = Some [] then identificar_bandeira numero
               else Inr bandeira0) of
           Inl e \<Rightarrow> Inl e
         | Inr band \<Rightarrow>
             Inr (if band = Some ''American Express''
                  then (if length numero = 15
                        then slice 0 4 numero @ ''-'' @ slice 4 10 numero @ ''-'' @ drop 10 numero
                        else numero)
                  else if band = Some ''Diners Club''
                  then (if length numero = 14
                        then slice 0 4 numero @ ''-'' @ slice 4 10 numero @ ''-'' @ drop 10 numero
                        else numero)
                  else (if length numero = 16
                        then slice 0 4 numero @ ''-'' @ slice 4 8 numero @ ''-''
                               @ slice 8 12 numero @ ''-'' @ drop 12 numero
                        else numero)))"

section \<open>The Luhn algorithm as the specification words it\<close>

text \<open>
  The specification's checksum engine, step by step: false on an empty string or one
  with a character that is no digit; otherwise the last digit is the check digit, the
  others are reversed, the values at even indices (from 0) of the reversed sequence are
  doubled, 9 being subtracted from a doubled value above 9, and the sum of all of them
  with the check digit must be divisible by 10.
\<close>

definition digit_value :: "char \<Rightarrow> int" where
  "digit_value c = int (of_char c) - 48"

definition dobro :: "int \<Rightarrow> int" where
  "dobro d = (if 2 * d > 9 then 2 * d - 9 else 2 * d)"

definition luhn_total :: "int list \<Rightarrow> int" where
  "luhn_total vals =
     (let check = last vals;
          rest = rev (butlast vals)
      in (\<Sum>i\<leftarrow>[0..<length rest]. if even i then dobro (rest ! i) else rest ! i) + check)"

definition luhn_spec :: "string \<Rightarrow> bool" where
  "luhn_spec digits =
     (if digits = [] \<or> \<not> list_all is_decimal digits then False
      else luhn_total (map digit_value digits) mod 10 = 0)"

section \<open>Properties\<close>

subsection \<open>The normaliser\<close>

lemma in_class_09 [simp]: "in_class [(CHR ''0'', CHR ''9'')] c = is_decimal c"
  by (simp add: in_class_def is_decimal_def)

lemma limpar_numero_decimal: "list_all is_decimal (limpar_numero s)"
  by (simp add: limpar_numero_def list_all_iff)

lemma limpar_numero_id: "list_all is_decimal s \<Longrightarrow> limpar_numero s = s"
  by (simp add: limpar_numero_def list_all_iff)

lemma limpar_numero_idem: "limpar_numero (limpar_numero s) = limpar_numero s"
  by (simp add: limpar_numero_def)

lemma isdigit_decimal: "list_all is_decimal s \<Longrightarrow> isdigit s \<longleftrightarrow> s \<noteq> []"
  by (auto simp: isdigit_def isdigit_char_def list_all_iff)

lemma isdigit_limpar: "isdigit (limpar_numero s) \<longleftrightarrow> limpar_numero s \<noteq> []"
  by (rule isdigit_decimal [OF limpar_numero_decimal])

text \<open>
  C8: \<open>limpar_numero\<close> is idempotent, and every character of its output is one of the
  ASCII decimal digits \<open>0\<close> to \<open>9\<close> (code points 48 to 57).
\<close>

theorem limpar_numero_idempotent:
  "limpar_numero (limpar_numero x) = limpar_numero x
   \<and> list_all (\<lambda>c. 48 \<le> (of_char c :: nat) \<and> (of_char c :: nat) \<le> 57) (limpar_numero x)"
  by (simp add: limpar_numero_def list_all_iff is_decimal_def in_range_def)

theorem limpar_numero_idempotent_witness:
  "limpar_numero (limpar_numero ''4111 1111-1111 1111'') = limpar_numero ''4111 1111-1111 1111''
   \<and> limpar_numero ''4111 1111-1111 1111'' = ''4111111111111111''"
  using limpar_numero_idempotent [of "''4111 1111-1111 1111''"]
  by (simp add: limpar_numero_def is_decimal_def in_range_def)

subsection \<open>No exception escapes\<close>

lemma ints_of_decimal:
  "list_all is_decimal s \<Longrightarrow> ints_of s = Inr (map (\<lambda>d. int (of_char d) - 48) s)"
  by (induction s) (simp_all add: int_of_char_def)

lemma validar_luhn_total: "\<exists>b. validar_luhn s = Inr b"
  using ints_of_decimal [OF limpar_numero_decimal, of s]
  by (auto simp: validar_luhn_def Let_def pop_def isdigit_def split: sum.splits)

lemma primeira_bandeira_total:
  "\<forall>k \<in> fst ` set tab. map_of nomes_bandeiras k \<noteq> None \<Longrightarrow> \<exists>b. primeira_bandeira tab s = Inr b"
  by (induction tab s rule: primeira_bandeira.induct) auto

lemma identificar_bandeira_total: "\<exists>b. identificar_bandeira s = Inr b"
  unfolding identificar_bandeira_def
  by (rule primeira_bandeira_total) (simp add: padroes_bandeiras_def nomes_bandeiras_def)

subsection \<open>The three exits of \<open>validar_cartao\<close>\<close>

lemma validar_cartao_cases:
  obtains
    (vazio) "limpar_numero numero = []"
      "validar_cartao numero = Inr \<lparr> numero_original = numero, numero_limpo = limpar_numero numero,
         valido_luhn = False, bandeira = None, valido_completo = False,
         comprimento = length (limpar_numero numero), mensagem = msg_caracteres \<rparr>"
  | (comprimento) "limpar_numero numero \<noteq> []"
      "length (limpar_numero numero) < 13 \<or> 19 < length (limpar_numero numero)"
      "validar_cartao numero = Inr \<lparr> numero_original = numero, numero_limpo = limpar_numero numero,
         valido_luhn = False, bandeira = None, valido_completo = False,
         comprimento = length (limpar_numero numero), mensagem = msg_comprimento \<rparr>"
  | (completo) luhn band where "limpar_numero numero \<noteq> []"
      "13 \<le> length (limpar_numero numero)" "length (limpar_numero numero) \<le> 19"
      "validar_luhn (limpar_numero numero) = Inr luhn"
      "identificar_bandeira (limpar_numero numero) = Inr band"
      "validar_cartao numero = Inr \<lparr> numero_original = numero, numero_limpo = limpar_numero numero,
         valido_luhn = luhn, bandeira = band, valido_completo = (luhn \<and> band \<noteq> None),
         comprimento = length (limpar_numero numero),
         mensagem = mensagem_status luhn band (luhn \<and> band \<noteq> None) \<rparr>"
proof -
  obtain luhn where l: "validar_luhn (limpar_numero numero) = Inr luhn"
    using validar_luhn_total by blast
  obtain band where b: "identificar_bandeira (limpar_numero numero) = Inr band"
    using identificar_bandeira_total by blast
  show thesis
  proof (cases "limpar_numero numero = []")
    case True
    then show thesis
      by (intro vazio) (simp_all add: validar_cartao_def isdigit_def Let_def)
  next
    case ne: False
    show thesis
    proof (cases "length (limpar_numero numero) < 13 \<or> 19 < length (limpar_numero numero)")
      case True
      with ne show thesis
        by (intro comprimento) (simp_all add: validar_cartao_def isdigit_limpar Let_def)
    next
      case False
      with ne l b show thesis
        by (intro completo [of luhn band]) (simp_all add: validar_cartao_def isdigit_limpar Let_def)
    qed
  qed
qed

lemma msg_caracteres_neq:
  "msg_caracteres \<noteq> msg_comprimento"
  "msg_caracteres \<noteq> mensagem_status luhn band completo"
  by (auto simp: msg_caracteres_def msg_comprimento_def mensagem_status_def msg_valido_def
      msg_sem_bandeira_def msg_luhn_invalido_def msg_invalido_def)

text \<open>
  C5: on every input \<open>validar_cartao\<close> returns a verdict, and in that verdict
  \<open>valido_completo\<close> equals the conjunction of \<open>valido_luhn\<close> and the presence of a brand.
\<close>

theorem validar_cartao_completo_derivado:
  "\<exists>r. validar_cartao numero = Inr r
       \<and> valido_completo r = (valido_luhn r \<and> bandeira r \<noteq> None)"
  by (cases numero rule: validar_cartao_cases) simp_all

text \<open>
  C9: the verdict of \<open>validar_cartao\<close> carries the message
  \<open>Numero contem caracteres invalidos\<close> exactly when the normalised string is empty.
\<close>

theorem validar_cartao_caracteres_iff_vazio:
  "\<exists>r. validar_cartao numero = Inr r
       \<and> (mensagem r = msg_caracteres \<longleftrightarrow> limpar_numero numero = [])"
  by (cases numero rule: validar_cartao_cases)
     (use msg_caracteres_neq in \<open>simp_all add: eq_commute\<close>)

subsection \<open>Verdicts\<close>

lemma sublist_msg_valido: "sublist b (msg_valido b)"
  using sublist_appendI [of b "''Cart'' @ [CHR 0xE3] @ ''o v'' @ [CHR 0xE1] @ ''lido - Bandeira: ''" "[]"]
  by (simp add: msg_valido_def)

text \<open>
  C7: \<open>validar_cartao\<close> on \<open>4111111111111111\<close> returns the verdict with \<open>valido_luhn\<close> true,
  brand \<open>Visa\<close>, \<open>valido_completo\<close> true, and a message that contains \<open>Visa\<close>.
\<close>

theorem validar_cartao_visa_4111: "validar_cartao ''4111111111111111'' =
     Inr \<lparr> numero_original = ''4111111111111111'', numero_limpo = ''4111111111111111'',
           valido_luhn = True, bandeira = Some ''Visa'', valido_completo = True,
           comprimento = 16, mensagem = msg_valido ''Visa'' \<rparr>
   \<and> sublist ''Visa'' (msg_valido ''Visa'')"
proof
  show "validar_cartao ''4111111111111111'' =
     Inr \<lparr> numero_original = ''4111111111111111'', numero_limpo = ''4111111111111111'',
           valido_luhn = True, bandeira = Some ''Visa'', valido_completo = True,
           comprimento = 16, mensagem = msg_valido ''Visa'' \<rparr>"
    by code_simp
  show "sublist ''Visa'' (msg_valido ''Visa'')"
    by (rule sublist_msg_valido)
qed

text \<open>
  C2, amended: on the empty string \<open>validar_cartao\<close> returns, raising nothing, a verdict
  with the invalid-characters message and \<open>valido_completo\<close> false. On every input whose
  normalised form has a length outside 13 to 19, the verdict has \<open>valido_luhn\<close> false, no
  brand and \<open>valido_completo\<close> false; its message is the invalid-length message when the
  normalised form is not empty, and the invalid-characters message when it is empty.
\<close>

theorem validar_cartao_fora_do_comprimento:
  "validar_cartao [] =
     Inr \<lparr> numero_original = [], numero_limpo = [], valido_luhn = False, bandeira = None,
           valido_completo = False, comprimento = 0, mensagem = msg_caracteres \<rparr>
   \<and> (length (limpar_numero numero) < 13 \<or> 19 < length (limpar_numero numero) \<longrightarrow>
        validar_cartao numero =
          Inr \<lparr> numero_original = numero, numero_limpo = limpar_numero numero,
                valido_luhn = False, bandeira = None, valido_completo = False,
                comprimento = length (limpar_numero numero),
                mensagem = (if limpar_numero numero = [] then msg_caracteres else msg_comprimento) \<rparr>)"
proof
  show "validar_cartao [] =
     Inr \<lparr> numero_original = [], numero_limpo = [], valido_luhn = False, bandeira = None,
           valido_completo = False, comprimento = 0, mensagem = msg_caracteres \<rparr>"
    by (simp add: validar_cartao_def limpar_numero_def isdigit_def)
  show "length (limpar_numero numero) < 13 \<or> 19 < length (limpar_numero numero) \<longrightarrow>
        validar_cartao numero =
          Inr \<lparr> numero_original = numero, numero_limpo = limpar_numero numero,
                valido_luhn = False, bandeira = None, valido_completo = False,
                comprimento = length (limpar_numero numero),
                mensagem = (if limpar_numero numero = [] then msg_caracteres else msg_comprimento) \<rparr>"
    by (cases numero rule: validar_cartao_cases) auto
qed

theorem validar_cartao_fora_do_comprimento_witness:
  "length (limpar_numero ''123'') < 13
   \<and> validar_cartao ''123'' =
          Inr \<lparr> numero_original = ''123'', numero_limpo = ''123'',
                valido_luhn = False, bandeira = None, valido_completo = False,
                comprimento = 3, mensagem = msg_comprimento \<rparr>"
  using validar_cartao_fora_do_comprimento [of "''123''"]
  by (simp add: limpar_numero_def is_decimal_def in_range_def)

text \<open>
  C2 as stated fails on the empty string: the verdict carries the invalid-characters
  message, which is not the invalid-length message.
\<close>

theorem validar_cartao_vazio_mensagem:
  "validar_cartao [] =
     Inr \<lparr> numero_original = [], numero_limpo = [], valido_luhn = False, bandeira = None,
           valido_completo = False, comprimento = 0, mensagem = msg_caracteres \<rparr>
   \<and> msg_caracteres \<noteq> msg_comprimento"
  by (simp add: validar_cartao_def limpar_numero_def isdigit_def msg_caracteres_def msg_comprimento_def)

subsection \<open>The formatter\<close>

lemma slice_join: "i \<le> j \<Longrightarrow> take i xs @ slice i j xs = take j xs"
  unfolding slice_def
  by (metis append_take_drop_id min.absorb1 take_take)

lemma slices3: "slice 0 4 xs @ slice 4 10 xs @ drop 10 xs = xs"
  using slice_join [of 4 10 xs] by (simp add: slice_def flip: append_assoc)

lemma slices4: "slice 0 4 xs @ slice 4 8 xs @ slice 8 12 xs @ drop 12 xs = xs"
proof -
  have "take 4 xs @ slice 4 8 xs = take 8 xs" by (rule slice_join) simp
  moreover have "take 8 xs @ slice 8 12 xs = take 12 xs" by (rule slice_join) simp
  ultimately have "(take 4 xs @ slice 4 8 xs) @ slice 8 12 xs @ drop 12 xs = xs"
    by (simp flip: append_assoc)
  then show ?thesis by (simp add: slice_def)
qed

lemma filter_slice: "filter P xs = xs \<Longrightarrow> filter P (slice i j xs) = slice i j xs"
  unfolding slice_def filter_id_conv
  by (meson in_set_dropD in_set_takeD)

lemma filter_drop: "filter P xs = xs \<Longrightarrow> filter P (drop i xs) = drop i xs"
  unfolding filter_id_conv by (meson in_set_dropD)

lemma formatar_numero_cases:
  obtains (igual) "formatar_numero numero band = Inr (limpar_numero numero)"
  | (tres) "formatar_numero numero band =
       Inr (slice 0 4 (limpar_numero numero) @ ''-'' @ slice 4 10 (limpar_numero numero) @ ''-''
            @ drop 10 (limpar_numero numero))"
  | (quatro) "formatar_numero numero band =
       Inr (slice 0 4 (limpar_numero numero) @ ''-'' @ slice 4 8 (limpar_numero numero) @ ''-''
            @ slice 8 12 (limpar_numero numero) @ ''-'' @ drop 12 (limpar_numero numero))"
proof -
  let ?n = "limpar_numero numero"
  obtain b where b: "identificar_bandeira ?n = Inr b"
    using identificar_bandeira_total by blast
  define e where "e = (if band = None \<or> band = Some [] then b else band)"
  have eff: "(if band = None \<or> band = Some [] then identificar_bandeira ?n else Inr band) = Inr e"
    using b by (simp add: e_def)
  have f: "formatar_numero numero band =
     Inr (if e = Some ''American Express''
          then (if length ?n = 15
                then slice 0 4 ?n @ ''-'' @ slice 4 10 ?n @ ''-'' @ drop 10 ?n else ?n)
          else if e = Some ''Diners Club''
          then (if length ?n = 14
                then slice 0 4 ?n @ ''-'' @ slice 4 10 ?n @ ''-'' @ drop 10 ?n else ?n)
          else (if length ?n = 16
                then slice 0 4 ?n @ ''-'' @ slice 4 8 ?n @ ''-'' @ slice 8 12 ?n @ ''-'' @ drop 12 ?n
                else ?n))"
    unfolding formatar_numero_def Let_def eff by simp
  show thesis
  proof (cases "e = Some ''American Express''")
    case True
    then show thesis using f igual tres by (cases "length ?n = 15") simp_all
  next
    case amex: False
    show thesis
    proof (cases "e = Some ''Diners Club''")
      case True
      then show thesis using f igual tres by (cases "length ?n = 14") simp_all
    next
      case False
      with amex show thesis using f igual quatro by (cases "length ?n = 16") simp_all
    qed
  qed
qed

lemma filter_hifen:
  assumes "filter P xs = xs" and "\<not> P CHR ''-''"
  shows "filter P (slice 0 4 xs @ ''-'' @ slice 4 10 xs @ ''-'' @ drop 10 xs) = xs"
    and "filter P (slice 0 4 xs @ ''-'' @ slice 4 8 xs @ ''-'' @ slice 8 12 xs @ ''-'' @ drop 12 xs) = xs"
  using assms by (simp_all add: filter_slice filter_drop slices3 slices4)

text \<open>
  C10: \<open>formatar_numero\<close> always returns a string; normalising it gives the normalised
  input, and it is the normalised input with nothing but hyphens inserted: deleting
  the hyphens gives the normalised input back.
\<close>

theorem formatar_numero_preserva_digitos:
  "\<exists>f. formatar_numero numero band = Inr f
       \<and> limpar_numero f = limpar_numero numero
       \<and> filter (\<lambda>c. c \<noteq> CHR ''-'') f = limpar_numero numero"
proof -
  let ?n = "limpar_numero numero"
  have d: "filter is_decimal ?n = ?n"
    by (simp add: limpar_numero_def)
  have nd: "\<not> is_decimal CHR ''-''"
    by (simp add: is_decimal_def in_range_def)
  have "\<forall>c \<in> set ?n. c \<noteq> CHR ''-''"
    using limpar_numero_decimal [of numero] nd by (auto simp: list_all_iff)
  then have h: "filter (\<lambda>c. c \<noteq> CHR ''-'') ?n = ?n"
    by (rule filter_True)
  have l: "limpar_numero s = filter is_decimal s" for s
    by (simp add: limpar_numero_def)
  show ?thesis
  proof (cases rule: formatar_numero_cases [of numero band])
    case igual
    then show ?thesis using d h by (simp add: l)
  next
    case tres
    then show ?thesis
      using filter_hifen(1) [OF d nd] filter_hifen(1) [OF h] by (simp add: l)
  next
    case quatro
    then show ?thesis
      using filter_hifen(2) [OF d nd] filter_hifen(2) [OF h] by (simp add: l)
  qed
qed

text \<open>
  C3, amended: for every digit string and every brand argument, let \<open>b\<close> be the brand
  in force (the argument, or the classification when the argument is absent or empty).
  If the number of digits differs from the length of the branch taken (15 for American
  Express, 14 for Diners Club, 16 for every other value of \<open>b\<close>, an unrecognised or absent
  brand included), \<open>formatar_numero\<close> returns the digit string unchanged.
\<close>

theorem formatar_numero_comprimento_errado:
  assumes "list_all is_decimal numero"
    and "(if band = None \<or> band = Some [] then identificar_bandeira numero else Inr band) = Inr b"
    and "length numero \<noteq> (if b = Some ''American Express'' then 15
                           else if b = Some ''Diners Club'' then 14 else 16)"
  shows "formatar_numero numero band = Inr numero"
  using assms(2,3) limpar_numero_id [OF assms(1)]
  by (simp add: formatar_numero_def Let_def split: if_splits)

theorem formatar_numero_comprimento_errado_witness:
  "list_all is_decimal ''30569309025904''
   \<and> length ''30569309025904'' \<noteq> (16::nat)
   \<and> formatar_numero ''30569309025904'' (Some ''Visa'') = Inr ''30569309025904''"
  using formatar_numero_comprimento_errado [of "''30569309025904''" "Some ''Visa''" "Some ''Visa''"]
  by (simp add: is_decimal_def in_range_def)

text \<open>
  C3 as stated fails for an unrecognised brand: sixteen digits that no pattern matches
  are still grouped four by four.
\<close>

theorem formatar_numero_sem_bandeira_16:
  "list_all is_decimal ''1234567890123456''
   \<and> identificar_bandeira ''1234567890123456'' = Inr None
   \<and> formatar_numero ''1234567890123456'' None = Inr ''1234-5678-9012-3456''"
  by code_simp


subsection \<open>The checksum\<close>

lemma dobrar_step:
  "i < length xs \<Longrightarrow> dobrar i xs = dobrar (i + 2) (xs[i := dobro (xs ! i)])"
  by (subst dobrar.simps) (simp add: Let_def dobro_def mult.commute)

lemma dobrar_stop: "\<not> i < length xs \<Longrightarrow> dobrar i xs = xs"
  by (subst dobrar.simps) simp

lemma dobrar_length: "length (dobrar i xs) = length xs"
proof (induction "length xs - i" arbitrary: i xs rule: less_induct)
  case less
  show ?case
  proof (cases "i < length xs")
    case True
    then have "length (dobrar (i + 2) (xs[i := dobro (xs ! i)])) = length (xs[i := dobro (xs ! i)])"
      by (intro less.hyps) simp
    then show ?thesis using dobrar_step [OF True] by simp
  next
    case False
    then show ?thesis by (simp add: dobrar_stop)
  qed
qed

lemma dobrar_nth:
  "j < length xs \<Longrightarrow>
   dobrar i xs ! j = (if i \<le> j \<and> even (j - i) then dobro (xs ! j) else xs ! j)"
proof (induction "length xs - i" arbitrary: i xs rule: less_induct)
  case less
  show ?case
  proof (cases "i < length xs")
    case True
    let ?ys = "xs[i := dobro (xs ! i)]"
    have ih: "dobrar (i + 2) ?ys ! j =
            (if i + 2 \<le> j \<and> even (j - (i + 2)) then dobro (?ys ! j) else ?ys ! j)"
      by (rule less.hyps) (use True less.prems in simp_all)
    have step: "dobrar i xs ! j = dobrar (i + 2) ?ys ! j"
      using dobrar_step [OF True] by simp
    consider (lt) "j < i" | (eq) "j = i" | (succ) "j = Suc i" | (ge) "i + 2 \<le> j"
      by linarith
    then show ?thesis
    proof cases
      case lt
      then show ?thesis unfolding step ih by simp
    next
      case eq
      then show ?thesis unfolding step ih using True by simp
    next
      case succ
      then show ?thesis unfolding step ih by simp
    next
      case ge
      then obtain k where "j = i + 2 + k"
        using le_iff_add by blast
      then show ?thesis unfolding step ih by simp
    qed
  next
    case False
    with less.prems show ?thesis by (simp add: dobrar_stop)
  qed
qed

lemma dobrar_0:
  "dobrar 0 xs = map (\<lambda>i. if even i then dobro (xs ! i) else xs ! i) [0..<length xs]"
  by (rule nth_equalityI) (simp_all add: dobrar_nth dobrar_length)

lemma digit_value_range: "is_decimal c \<Longrightarrow> 0 \<le> digit_value c \<and> digit_value c \<le> 9"
  by (simp add: is_decimal_def in_range_def digit_value_def)

lemma digit_value_inj: "digit_value a = digit_value b \<longleftrightarrow> a = b"
  by (simp add: digit_value_def)

lemma ints_of_digit_value: "list_all is_decimal s \<Longrightarrow> ints_of s = Inr (map digit_value s)"
  by (simp add: ints_of_decimal digit_value_def)

lemma validar_luhn_decimal:
  assumes "list_all is_decimal s"
  shows "validar_luhn s = Inr (luhn_spec s)"
proof (cases "s = []")
  case True
  then show ?thesis
    by (simp add: validar_luhn_def limpar_numero_def isdigit_def luhn_spec_def)
next
  case False
  with assms have "isdigit s" by (simp add: isdigit_decimal)
  with assms False show ?thesis
    by (simp add: validar_luhn_def limpar_numero_id ints_of_digit_value pop_def Let_def
        luhn_spec_def luhn_total_def dobrar_0 last_map map_butlast)
qed

lemma luhn_spec_limpar: "validar_luhn s = Inr (luhn_spec (limpar_numero s))"
proof -
  have "validar_luhn s = validar_luhn (limpar_numero s)"
    by (simp add: validar_luhn_def limpar_numero_idem)
  then show ?thesis
    by (simp add: validar_luhn_decimal [OF limpar_numero_decimal])
qed

lemma luhn_spec_single: "is_decimal c \<Longrightarrow> luhn_spec [c] = (c = CHR ''0'')"
proof -
  assume c: "is_decimal c"
  have "digit_value c mod 10 = 0 \<longleftrightarrow> digit_value c = 0"
    using digit_value_range [OF c] by presburger
  also have "\<dots> \<longleftrightarrow> digit_value c = digit_value CHR ''0''"
    by (simp add: digit_value_def)
  also have "\<dots> \<longleftrightarrow> c = CHR ''0''"
    by (rule digit_value_inj)
  finally show ?thesis
    using c by (simp add: luhn_spec_def luhn_total_def)
qed

text \<open>
  C4, amended: \<open>validar_luhn\<close> first deletes every character that is no digit, and
  then computes exactly the specification's Luhn algorithm on the digits that remain:
  false when none remains; otherwise the last digit is set aside as check digit, the
  others are reversed, the values at even indices of the reversed sequence are doubled
  (minus 9 above 9), and the result is true iff the sum with the check digit is
  divisible by 10. On a string of one digit it is true iff that digit is \<open>0\<close>.
\<close>

theorem validar_luhn_refina_spec:
  "validar_luhn numero = Inr (luhn_spec (limpar_numero numero))
   \<and> (is_decimal c \<longrightarrow> validar_luhn [c] = Inr (c = CHR ''0''))"
  using luhn_spec_single [of c] validar_luhn_decimal [of "[c]"]
  by (simp add: luhn_spec_limpar)

theorem validar_luhn_refina_spec_witness:
  "validar_luhn ''4111 1111 1111 1111'' = Inr (luhn_spec ''4111111111111111'')
   \<and> is_decimal CHR ''7'' \<and> validar_luhn ''7'' = Inr False"
  using validar_luhn_refina_spec [of "''4111 1111 1111 1111''" "CHR ''7''"]
  by (simp add: limpar_numero_def is_decimal_def in_range_def)

text \<open>
  C4 as stated fails on an input with a character that is no digit: the character is
  deleted and the remaining digits are judged.
\<close>

theorem validar_luhn_nao_digito:
  "\<not> list_all is_decimal ''0a'' \<and> validar_luhn ''0a'' = Inr True"
  by code_simp


subsection \<open>Changing one digit\<close>

lemma small_mod: "\<bar>d\<bar> < 10 \<Longrightarrow> d \<noteq> 0 \<Longrightarrow> (d::int) mod 10 \<noteq> 0"
  using dvd_imp_le_int [of d 10] by (auto simp: mod_eq_0_iff_dvd)

lemma dobro_range: "0 \<le> x \<Longrightarrow> x \<le> 9 \<Longrightarrow> 0 \<le> dobro x \<and> dobro x \<le> 9"
  by (simp add: dobro_def)

lemma odd_neq: "2 * (a::int) - 9 \<noteq> 2 * b"
proof
  assume "2 * a - 9 = 2 * b"
  then have "2 * (a - b - 5) + 1 = (0::int)" by simp
  then have "odd (0::int)" by (metis even_add even_mult_iff even_numeral odd_one)
  then show False by simp
qed

lemma dobro_inj: "dobro x = dobro y \<Longrightarrow> x = y"
  using odd_neq [of x y] odd_neq [of y x] by (simp add: dobro_def split: if_splits)

lemma dobro_diff:
  assumes "0 \<le> x" "x \<le> 9" "0 \<le> y" "y \<le> 9" "x \<noteq> y"
  shows "(dobro y - dobro x) mod 10 \<noteq> 0"
proof (rule small_mod)
  show "\<bar>dobro y - dobro x\<bar> < 10"
    using dobro_range [of x] dobro_range [of y] assms by linarith
  show "dobro y - dobro x \<noteq> 0"
    using dobro_inj [of y x] assms by auto
qed

lemma id_diff:
  "0 \<le> x \<Longrightarrow> x \<le> 9 \<Longrightarrow> 0 \<le> y \<Longrightarrow> y \<le> 9 \<Longrightarrow> x \<noteq> y \<Longrightarrow> (y - x) mod 10 \<noteq> (0::int)"
  by (rule small_mod) linarith+

lemma mod_shift: "(d::int) mod 10 \<noteq> 0 \<Longrightarrow> (a + d) mod 10 \<noteq> a mod 10"
proof
  assume d: "d mod 10 \<noteq> 0" and e: "(a + d) mod 10 = a mod 10"
  from e have "10 dvd (a + d) - a" by (simp only: mod_eq_dvd_iff)
  then have "d mod 10 = 0" by (simp add: mod_eq_0_iff_dvd)
  with d show False by simp
qed


lemma pesos_update:
  fixes w :: "nat \<Rightarrow> int \<Rightarrow> int"
  assumes "k < length xs"
  shows "(\<Sum>i\<leftarrow>[0..<length xs]. w i (xs[k := v] ! i))
         = (\<Sum>i\<leftarrow>[0..<length xs]. w i (xs ! i)) - w k (xs ! k) + w k v"
proof -
  let ?A = "{0..<length xs}"
  have k: "k \<in> ?A" using assms by simp
  have "(\<Sum>i\<in>?A. w i (xs[k := v] ! i)) = w k (xs[k := v] ! k) + (\<Sum>i\<in>?A - {k}. w i (xs[k := v] ! i))"
    by (rule sum.remove [OF _ k]) simp
  also have "(\<Sum>i\<in>?A - {k}. w i (xs[k := v] ! i)) = (\<Sum>i\<in>?A - {k}. w i (xs ! i))"
    by (rule sum.cong) simp_all
  also have "w k (xs[k := v] ! k) = w k v"
    using assms by simp
  finally have 1: "(\<Sum>i\<in>?A. w i (xs[k := v] ! i)) = w k v + (\<Sum>i\<in>?A - {k}. w i (xs ! i))" .
  have 2: "(\<Sum>i\<in>?A. w i (xs ! i)) = w k (xs ! k) + (\<Sum>i\<in>?A - {k}. w i (xs ! i))"
    by (rule sum.remove [OF _ k]) simp
  show ?thesis
    using 1 2 by (simp add: interv_sum_list_conv_sum_set_nat)
qed

lemma luhn_total_update:
  assumes "i < length vals"
  shows "\<exists>g. (g = dobro \<or> g = (\<lambda>x. x))
             \<and> luhn_total (vals[i := v]) = luhn_total vals - g (vals ! i) + g v"
proof (cases "i = length vals - 1")
  case True
  with assms have "vals \<noteq> []" by auto
  then have "luhn_total (vals[i := v]) = luhn_total vals - vals ! i + v"
    using True by (simp add: luhn_total_def Let_def butlast_list_update last_list_update last_conv_nth)
  then show ?thesis by blast
next
  case False
  let ?b = "butlast vals"
  let ?k = "length ?b - i - 1"
  let ?w = "\<lambda>i x. if even i then dobro x else x"
  from False assms have i: "i < length ?b" by simp
  then have k: "?k < length (rev ?b)" by simp
  have kk: "length ?b - Suc ?k = i"
    using i by arith
  have "rev ?b ! ?k = ?b ! (length ?b - Suc ?k)"
    using i by (intro rev_nth) simp
  also have "\<dots> = ?b ! i"
    by (simp only: kk)
  also have "\<dots> = vals ! i"
    using i by (simp add: nth_butlast)
  finally have nth: "rev ?b ! ?k = vals ! i" .
  have rest: "rev (butlast (vals[i := v])) = (rev ?b)[?k := v]"
    using False i by (simp add: butlast_list_update rev_update)
  from assms have ne: "vals \<noteq> []" by auto
  have lst: "last (vals[i := v]) = last vals"
    using last_list_update [OF ne, of i v] False by simp
  have "luhn_total (vals[i := v]) = luhn_total vals - ?w ?k (vals ! i) + ?w ?k v"
    unfolding luhn_total_def Let_def rest lst
    using pesos_update [OF k, of ?w v] nth by simp
  then show ?thesis by (cases "even ?k") auto
qed

lemma luhn_total_mod:
  assumes "i < length vals" and "0 \<le> vals ! i" and "vals ! i \<le> 9"
    and "0 \<le> v" and "v \<le> 9" and "v \<noteq> vals ! i"
  shows "luhn_total (vals[i := v]) mod 10 \<noteq> luhn_total vals mod 10"
proof -
  obtain g where g: "g = dobro \<or> g = (\<lambda>x. x)"
    and t: "luhn_total (vals[i := v]) = luhn_total vals - g (vals ! i) + g v"
    using luhn_total_update [OF assms(1)] by blast
  have "(g v - g (vals ! i)) mod 10 \<noteq> 0"
    using g dobro_diff [of "vals ! i" v] id_diff [of "vals ! i" v] assms by auto
  moreover have "luhn_total (vals[i := v]) = luhn_total vals + (g v - g (vals ! i))"
    using t by simp
  ultimately show ?thesis
    by (simp only: mod_shift not_False_eq_True)
qed

lemma luhn_spec_update:
  assumes "list_all is_decimal d" and "i < length d" and "is_decimal c" and "c \<noteq> d ! i"
  shows "\<not> (luhn_spec d \<and> luhn_spec (d[i := c]))"
proof -
  let ?vals = "map digit_value d"
  have dec: "is_decimal (d ! i)"
    using assms(1,2) by (simp add: list_all_length)
  have "luhn_total (?vals[i := digit_value c]) mod 10 \<noteq> luhn_total ?vals mod 10"
    using assms(2,4) digit_value_range [OF dec] digit_value_range [OF assms(3)]
    by (intro luhn_total_mod) (simp_all add: digit_value_inj)
  then have "luhn_total (map digit_value (d[i := c])) mod 10 \<noteq> luhn_total ?vals mod 10"
    by (simp add: map_update)
  then show ?thesis
    by (auto simp: luhn_spec_def)
qed

text \<open>
  C6, amended: for every non-empty string \<open>d\<close> of decimal digits and every position \<open>i\<close>
  in it, replacing the digit at \<open>i\<close> by a different decimal digit never leaves two
  Luhn-valid strings: if \<open>d\<close> is valid the modified string is invalid, and if the
  modified string is valid \<open>d\<close> is invalid. (Both may be invalid.)
\<close>

theorem validar_luhn_troca_um_digito:
  assumes "d \<noteq> []" and "list_all is_decimal d" and "i < length d"
    and "is_decimal c" and "c \<noteq> d ! i"
  shows "(validar_luhn d = Inr True \<longrightarrow> validar_luhn (d[i := c]) = Inr False)
       \<and> (validar_luhn (d[i := c]) = Inr True \<longrightarrow> validar_luhn d = Inr False)"
proof -
  have "list_all is_decimal (d[i := c])"
    using assms(2,4) by (auto simp: list_all_iff dest: set_update_subset_insert [THEN subsetD])
  then show ?thesis
    using luhn_spec_update [OF assms(2,3,4,5)]
    by (auto simp: validar_luhn_decimal assms(2))
qed

theorem validar_luhn_troca_um_digito_witness:
  "''4111111111111111'' \<noteq> [] \<and> list_all is_decimal ''4111111111111111''
   \<and> 3 < length ''4111111111111111'' \<and> is_decimal CHR ''7''
   \<and> CHR ''7'' \<noteq> ''4111111111111111'' ! 3
   \<and> validar_luhn ''4111111111111111'' = Inr True
   \<and> validar_luhn ''4117111111111111'' = Inr False"
  using validar_luhn_troca_um_digito [of "''4111111111111111''" 3 "CHR ''7''"]
  by (simp add: is_decimal_def in_range_def validar_luhn_decimal luhn_spec_def luhn_total_def
      digit_value_def dobro_def)

text \<open>
  C6 as stated fails when the original string is invalid: \<open>1\<close> and \<open>2\<close> differ in one
  digit and are both invalid.
\<close>

theorem validar_luhn_dois_invalidos:
  "''1'' \<noteq> [] \<and> list_all is_decimal ''1'' \<and> 0 < length ''1'' \<and> is_decimal CHR ''2''
   \<and> CHR ''2'' \<noteq> ''1'' ! 0
   \<and> validar_luhn ''1'' = Inr False \<and> validar_luhn (''1''[0 := CHR ''2'']) = Inr False"
  by code_simp


subsection \<open>Classifying the prefix \<open>5078\<close>\<close>

lemma one_char_Cons: "one_char P (p, c # cs) = (if P c then [(Suc p, cs)] else [])"
  by (simp add: one_char_def)

lemma one_char_Nil: "one_char P (p, []) = []"
  by (simp add: one_char_def)

lemma match_at_cat_Nil: "match_at (cat []) st = [st]"
  by (simp add: cat_def)

lemma match_at_cat_Cons:
  "match_at (cat (r # rs)) st = concat (map (match_at (cat rs)) (match_at r st))"
  by (simp add: cat_def)

lemma match_at_str_Nil: "match_at (str []) st = [st]"
  by (simp add: str_def cat_def)

lemma match_at_str_Cons:
  "match_at (str (c # cs)) st = concat (map (match_at (str cs)) (one_char (\<lambda>x. x = c) st))"
  by (simp add: str_def cat_def)

lemmas match_simps = one_char_Cons one_char_Nil match_at_cat_Nil match_at_cat_Cons
  match_at_str_Nil match_at_str_Cons rng_def any_of_def d09_def in_class_def in_range_def
  is_decimal_def re_match_def

lemma rep_exact:
  "n \<le> length xs \<Longrightarrow> list_all P (take n xs) \<Longrightarrow>
   rep_m (one_char P) n n (p, xs) = [(p + n, drop n xs)]"
proof (induction n arbitrary: p xs)
  case 0
  then show ?case by simp
next
  case (Suc n)
  then obtain c cs where xs: "xs = c # cs" by (cases xs) auto
  with Suc.prems have "n \<le> length cs" "list_all P (take n cs)" "P c" by simp_all
  with Suc.IH [of cs "Suc p"] show ?case by (simp add: xs one_char_Cons)
qed

lemma exactly_Dig:
  "n \<le> length xs \<Longrightarrow> list_all is_decimal (take n xs) \<Longrightarrow>
   match_at (exactly Dig n) (p, xs) = [(p + n, drop n xs)]"
proof -
  have "match_at Dig = one_char is_decimal" by (rule ext) simp
  then show "n \<le> length xs \<Longrightarrow> list_all is_decimal (take n xs) \<Longrightarrow> ?thesis"
    by (simp add: exactly_def rep_exact)
qed

lemma no_visa: "\<not> re_match padrao_visa (CHR ''5'' # r)"
  by (simp add: padrao_visa_def match_simps)

lemma no_mastercard: "\<not> re_match padrao_mastercard (CHR ''5'' # CHR ''0'' # r)"
  by (simp add: padrao_mastercard_def match_simps)

lemma no_amex: "\<not> re_match padrao_amex (CHR ''5'' # r)"
  by (simp add: padrao_amex_def match_simps)

lemma no_elo: "\<not> re_match padrao_elo (CHR ''5'' # CHR ''0'' # CHR ''7'' # r)"
  by (simp add: padrao_elo_def elo_50a_def elo_50b_def match_simps)

lemma no_hipercard: "\<not> re_match padrao_hipercard (CHR ''5'' # r)"
  by (simp add: padrao_hipercard_def match_simps)

lemma no_diners: "\<not> re_match padrao_diners (CHR ''5'' # r)"
  by (simp add: padrao_diners_def match_simps)

lemma no_discover: "\<not> re_match padrao_discover (CHR ''5'' # r)"
  by (simp add: padrao_discover_def match_simps)

lemma no_jcb: "\<not> re_match padrao_jcb (CHR ''5'' # r)"
  by (simp add: padrao_jcb_def match_simps)

lemma aura_match:
  assumes "length r = 15" and "list_all is_decimal r"
  shows "re_match padrao_aura (CHR ''5'' # CHR ''0'' # CHR ''7'' # CHR ''8'' # r)"
proof -
  have d: "list_all is_decimal (take n (drop k r))" for n k
    using assms(2) by (auto simp: list_all_iff dest: in_set_takeD in_set_dropD)
  have 1: "match_at (exactly Dig 2) (4, r) = [(6, drop 2 r)]"
    using exactly_Dig [of 2 r 4] assms d [of 2 0] by simp
  have 2: "match_at (exactly Dig 2) (6, drop 2 r) = [(8, drop 4 r)]"
    using exactly_Dig [of 2 "drop 2 r" 6] assms d [of 2 2] by simp
  have 3: "match_at (exactly Dig 11) (8, drop 4 r) = [(19, [])]"
    using exactly_Dig [of 11 "drop 4 r" 8] assms d [of 11 4] by simp
  have p: "match_at (str ''5078'') (0, CHR ''5'' # CHR ''0'' # CHR ''7'' # CHR ''8'' # r) = [(4, r)]"
    by (simp add: match_simps)
  show ?thesis
    by (simp add: padrao_aura_def re_match_def match_at_cat_Cons match_at_cat_Nil p 1 2 3)
qed


text \<open>
  C1, amended: for every string of exactly 19 decimal digits that starts with \<open>5078\<close>,
  \<open>identificar_bandeira\<close> returns the brand Aura.
\<close>

theorem identificar_bandeira_aura_19:
  assumes "length s = 19" and "list_all is_decimal s" and "take 4 s = ''5078''"
  shows "identificar_bandeira s = Inr (Some ''Aura'')"
proof -
  obtain r where s: "s = CHR ''5'' # CHR ''0'' # CHR ''7'' # CHR ''8'' # r"
    using assms(1,3) by (metis append_take_drop_id append_Cons append_Nil)
  with assms have r: "length r = 15" "list_all is_decimal r" by simp_all
  have "primeira_bandeira padroes_bandeiras s = Inr (Some ''Aura'')"
    unfolding s padroes_bandeiras_def
    by (simp add: no_visa no_mastercard no_amex no_elo no_hipercard no_diners no_discover
        no_jcb aura_match [OF r] nomes_bandeiras_def)
  then show ?thesis
    by (simp add: identificar_bandeira_def limpar_numero_id [OF assms(2)])
qed

theorem identificar_bandeira_aura_19_witness:
  "length ''5078123456789012345'' = 19 \<and> list_all is_decimal ''5078123456789012345''
   \<and> take 4 ''5078123456789012345'' = ''5078''
   \<and> identificar_bandeira ''5078123456789012345'' = Inr (Some ''Aura'')"
  using identificar_bandeira_aura_19 [of "''5078123456789012345''"]
  by (simp add: is_decimal_def in_range_def)

text \<open>
  C1 as stated fails: the Aura pattern asks for 4 + 2 + 2 + 11 = 19 digits, and a string
  of 16 digits that starts with \<open>5078\<close> falls through to the Maestro pattern.
\<close>

theorem identificar_bandeira_5078_16_maestro:
  "length ''5078000000000000'' = 16 \<and> list_all is_decimal ''5078000000000000''
   \<and> take 4 ''5078000000000000'' = ''5078''
   \<and> identificar_bandeira ''5078000000000000'' = Inr (Some ''Maestro'')"
  by code_simp


end
